theory Spec2Isabelle
  imports Complex_Main "HOL-Library.Sublist"
begin

section \<open>The wafer map maker: grid-point generation\<close>

text \<open>
  The embedding follows \<^verbatim>\<open>src/map_maker.py\<close>. Python and numpy floats are
  idealised as \<^typ>\<open>real\<close>: every statement below is about exact arithmetic, and
  rounding is outside the model.
\<close>

subsection \<open>Data\<close>

type_synonym point = "real \<times> real"

text \<open>A circular zone is the tuple \<^verbatim>\<open>(ex_x, ex_y, ex_r)\<close>, a rectangular zone
  the tuple \<^verbatim>\<open>(x, y_flipped, w, h)\<close>.\<close>

type_synonym circ_zone = "real \<times> real \<times> real"
type_synonym rect_zone = "real \<times> real \<times> real \<times> real"

text \<open>The only failure of the generator: numpy refuses a range whose length it
  cannot compute, which is the case of a zero step.\<close>

datatype error = ValueError

subsection \<open>Utility functions\<close>

text \<open>\<^verbatim>\<open>any((x-ex[0])**2 + (y-ex[1])**2 <= ex[2]**2 for ex in zones)\<close>\<close>

definition is_inside_exclusion :: "real \<Rightarrow> real \<Rightarrow> circ_zone list \<Rightarrow> bool" where
  "is_inside_exclusion x y zones =
     list_ex (\<lambda>ex. (x - fst ex)\<^sup>2 + (y - fst (snd ex))\<^sup>2 \<le> (snd (snd ex))\<^sup>2) zones"

text \<open>\<^verbatim>\<open>any((x >= rx and x <= rx + rw and y >= ry and y <= ry + rh)
  for (rx, ry, rw, rh) in rects)\<close>\<close>

definition is_inside_rects :: "real \<Rightarrow> real \<Rightarrow> rect_zone list \<Rightarrow> bool" where
  "is_inside_rects x y rects =
     list_ex (\<lambda>(rx, ry, rw, rh). x \<ge> rx \<and> x \<le> rx + rw \<and> y \<ge> ry \<and> y \<le> ry + rh) rects"

text \<open>
  \<^verbatim>\<open>np.arange(start, stop, step)\<close>: the length is the ceiling of
  \<open>(stop - start) / step\<close> (an empty array when that is not positive), the element
  of index \<open>i\<close> is \<open>start + i * step\<close>; a zero step raises.
\<close>

definition arange_values :: "real \<Rightarrow> real \<Rightarrow> real \<Rightarrow> real list" where
  "arange_values start stop step =
     map (\<lambda>i. start + real i * step) [0 ..< nat \<lceil>(stop - start) / step\<rceil>]"

definition arange :: "real \<Rightarrow> real \<Rightarrow> real \<Rightarrow> error + real list" where
  "arange start stop step =
     (if step = 0 then Inl ValueError else Inr (arange_values start stop step))"

subsection \<open>compute_points\<close>

text \<open>The condition of the \<^verbatim>\<open>if\<close> that guards \<^verbatim>\<open>points.append((x, y))\<close>;
  both branches of \<^verbatim>\<open>compute_points\<close> spell it out in the same words.\<close>

definition accept_cond ::
  "real \<Rightarrow> real \<Rightarrow> circ_zone list \<Rightarrow> rect_zone list \<Rightarrow> real \<Rightarrow> real \<Rightarrow> bool" where
  "accept_cond wafer_radius edge_exclusion exclusion_zones drawable_rects x y =
     (let r2 = x\<^sup>2 + y\<^sup>2 in
        r2 \<le> wafer_radius\<^sup>2
        \<and> r2 \<le> (wafer_radius - edge_exclusion)\<^sup>2
        \<and> \<not> is_inside_exclusion x y exclusion_zones
        \<and> \<not> is_inside_rects x y drawable_rects)"

text \<open>\<^verbatim>\<open>for y in y_range: ...\<close>, threading the list \<^verbatim>\<open>points\<close>.\<close>

fun inner_loop ::
  "real \<Rightarrow> real \<Rightarrow> circ_zone list \<Rightarrow> rect_zone list \<Rightarrow> real \<Rightarrow> real list \<Rightarrow> point list
   \<Rightarrow> point list" where
  "inner_loop R e zs rs x [] points = points"
| "inner_loop R e zs rs x (y # ys) points =
     inner_loop R e zs rs x ys
       (if accept_cond R e zs rs x y then points @ [(x, y)] else points)"

text \<open>\<^verbatim>\<open>for x in x_range: for y in y_range: ...\<close> of the rectangular branch.\<close>

fun rect_loop ::
  "real \<Rightarrow> real \<Rightarrow> circ_zone list \<Rightarrow> rect_zone list \<Rightarrow> real list \<Rightarrow> real list \<Rightarrow> point list
   \<Rightarrow> point list" where
  "rect_loop R e zs rs [] y_range points = points"
| "rect_loop R e zs rs (x # xs) y_range points =
     rect_loop R e zs rs xs y_range (inner_loop R e zs rs x y_range points)"

text \<open>\<^verbatim>\<open>for i, x in enumerate(x_range): ...\<close> of the hexagonal branch; the range of
  \<open>y\<close> is built anew in every column, so it can raise in every column.\<close>

fun hex_loop ::
  "real \<Rightarrow> real \<Rightarrow> real \<Rightarrow> circ_zone list \<Rightarrow> rect_zone list \<Rightarrow> nat \<Rightarrow> real list \<Rightarrow> point list
   \<Rightarrow> error + point list" where
  "hex_loop R e spacing_y zs rs i [] points = Inr points"
| "hex_loop R e spacing_y zs rs i (x # xs) points =
     (let offset = (if i mod 2 = 0 then 0 else spacing_y / 2) in
      case arange (- R + spacing_y / 2 + offset) R spacing_y of
        Inl err \<Rightarrow> Inl err
      | Inr y_range \<Rightarrow>
          hex_loop R e spacing_y zs rs (Suc i) xs (inner_loop R e zs rs x y_range points))"

definition compute_points ::
  "real \<Rightarrow> real \<Rightarrow> string \<Rightarrow> real \<Rightarrow> real \<Rightarrow> circ_zone list \<Rightarrow> rect_zone list
   \<Rightarrow> error + (point list \<times> nat)" where
  "compute_points wafer_diameter edge_exclusion grid_type spacing_x spacing_y
     exclusion_zones drawable_rects =
     (let wafer_radius = wafer_diameter / 2 in
      if grid_type = ''Rectangular'' then
        (case arange (- wafer_radius + spacing_x / 2) wafer_radius spacing_x of
           Inl err \<Rightarrow> Inl err
         | Inr x_range \<Rightarrow>
            (case arange (- wafer_radius + spacing_y / 2) wafer_radius spacing_y of
               Inl err \<Rightarrow> Inl err
             | Inr y_range \<Rightarrow>
                (let points = rect_loop wafer_radius edge_exclusion exclusion_zones
                                drawable_rects x_range y_range []
                 in Inr (points, length points))))
      else
        (case arange (- wafer_radius + spacing_x / 2) wafer_radius spacing_x of
           Inl err \<Rightarrow> Inl err
         | Inr x_range \<Rightarrow>
            (case hex_loop wafer_radius edge_exclusion spacing_y exclusion_zones
                    drawable_rects 0 x_range [] of
               Inl err \<Rightarrow> Inl err
             | Inr points \<Rightarrow> Inr (points, length points))))"

subsection \<open>The drawing surface\<close>

definition CANVAS_SIZE :: real where
  "CANVAS_SIZE = 400"

text \<open>A canvas object: its \<^verbatim>\<open>type\<close>, \<^verbatim>\<open>left\<close>, \<^verbatim>\<open>top\<close>, \<^verbatim>\<open>width\<close> and
  \<^verbatim>\<open>height\<close>.\<close>

record canvas_obj =
  obj_type :: string
  left :: real
  top :: real
  width :: real
  height :: real

text \<open>The body of the loop over \<^verbatim>\<open>canvas_result.json_data["objects"]\<close> for an object
  of type \<^verbatim>\<open>rect\<close>.\<close>

definition rect_of_obj :: "real \<Rightarrow> canvas_obj \<Rightarrow> rect_zone" where
  "rect_of_obj wafer_diameter obj =
     (let wafer_radius = wafer_diameter / 2;
          x = left obj * wafer_diameter / CANVAS_SIZE - wafer_radius;
          w = width obj * wafer_diameter / CANVAS_SIZE;
          h = height obj * wafer_diameter / CANVAS_SIZE;
          y_top_canvas = top obj * wafer_diameter / CANVAS_SIZE;
          y_flipped = wafer_diameter - y_top_canvas - h - wafer_radius
      in (x, y_flipped, w, h))"

text \<open>The extraction loop: objects of another type are skipped, and no
  \<^verbatim>\<open>json_data\<close> leaves the list empty.\<close>

fun extract_loop :: "real \<Rightarrow> canvas_obj list \<Rightarrow> rect_zone list \<Rightarrow> rect_zone list" where
  "extract_loop wafer_diameter [] drawable_rects = drawable_rects"
| "extract_loop wafer_diameter (obj # objs) drawable_rects =
     extract_loop wafer_diameter objs
       (if obj_type obj = ''rect'' then drawable_rects @ [rect_of_obj wafer_diameter obj]
        else drawable_rects)"

definition extract_rects :: "real \<Rightarrow> canvas_obj list option \<Rightarrow> rect_zone list" where
  "extract_rects wafer_diameter json_data =
     (case json_data of None \<Rightarrow> [] | Some objs \<Rightarrow> extract_loop wafer_diameter objs [])"

subsection \<open>Closed forms of the loops\<close>

text \<open>The values of \<^verbatim>\<open>y_range\<close> in column \<open>i\<close> of the hexagonal branch, and the
  lists that the two loop nests build; the lemmas below show that the loops compute them.\<close>

definition hex_column :: "real \<Rightarrow> real \<Rightarrow> nat \<Rightarrow> real list" where
  "hex_column R spacing_y i =
     arange_values (- R + spacing_y / 2 + (if i mod 2 = 0 then 0 else spacing_y / 2)) R spacing_y"

definition rect_points ::
  "real \<Rightarrow> real \<Rightarrow> real \<Rightarrow> real \<Rightarrow> circ_zone list \<Rightarrow> rect_zone list \<Rightarrow> point list" where
  "rect_points R e sx sy zs rs =
     concat (map (\<lambda>x. map (Pair x) (filter (accept_cond R e zs rs x)
                                        (arange_values (- R + sy / 2) R sy)))
                 (arange_values (- R + sx / 2) R sx))"

definition hex_points ::
  "real \<Rightarrow> real \<Rightarrow> real \<Rightarrow> real \<Rightarrow> circ_zone list \<Rightarrow> rect_zone list \<Rightarrow> point list" where
  "hex_points R e sx sy zs rs =
     concat (map (\<lambda>(j, x). map (Pair x) (filter (accept_cond R e zs rs x) (hex_column R sy j)))
                 (zip [0 ..< length (arange_values (- R + sx / 2) R sx)]
                      (arange_values (- R + sx / 2) R sx)))"

section \<open>The loops\<close>

lemma inner_loop_eq:
  "inner_loop R e zs rs x ys points =
     points @ map (Pair x) (filter (accept_cond R e zs rs x) ys)"
  by (induction ys arbitrary: points) simp_all

lemma rect_loop_eq:
  "rect_loop R e zs rs xs ys points =
     points @ concat (map (\<lambda>x. map (Pair x) (filter (accept_cond R e zs rs x) ys)) xs)"
  by (induction xs arbitrary: points) (simp_all add: inner_loop_eq)

lemma hex_loop_eq:
  "spacing_y \<noteq> 0 \<Longrightarrow>
   hex_loop R e spacing_y zs rs i xs points =
     Inr (points @ concat (map (\<lambda>(j, x). map (Pair x)
            (filter (accept_cond R e zs rs x) (hex_column R spacing_y j)))
          (zip [i ..< i + length xs] xs)))"
proof (induction xs arbitrary: i points)
  case Nil
  then show ?case by simp
next
  case (Cons x xs)
  have upt: "[i ..< i + length (x # xs)] = i # [Suc i ..< Suc i + length xs]"
    using upt_conv_Cons [of i "i + Suc (length xs)"] by simp
  have "hex_loop R e spacing_y zs rs i (x # xs) points =
          hex_loop R e spacing_y zs rs (Suc i) xs
            (inner_loop R e zs rs x (hex_column R spacing_y i) points)"
    using Cons.prems by (simp add: arange_def hex_column_def Let_def)
  also have "\<dots> = Inr ((points @ map (Pair x)
                 (filter (accept_cond R e zs rs x) (hex_column R spacing_y i))) @
               concat (map (\<lambda>(j, x). map (Pair x)
                 (filter (accept_cond R e zs rs x) (hex_column R spacing_y j)))
               (zip [Suc i ..< Suc i + length xs] xs)))"
    using Cons.IH [OF Cons.prems] by (simp only: inner_loop_eq)
  finally show ?case
    by (simp only: upt zip_Cons_Cons list.map concat.simps prod.case append_assoc)
qed

lemma arange_values_nth:
  "k < length (arange_values start stop step) \<Longrightarrow>
   arange_values start stop step ! k = start + real k * step"
  by (simp add: arange_values_def)

lemma arange_values_length_iff:
  assumes "step > 0"
  shows "k < length (arange_values start stop step) \<longleftrightarrow> start + real k * step < stop"
proof -
  have "k < nat \<lceil>(stop - start) / step\<rceil> \<longleftrightarrow> int k < \<lceil>(stop - start) / step\<rceil>"
    by linarith
  also have "\<dots> \<longleftrightarrow> real k < (stop - start) / step"
    by (simp add: less_ceiling_iff)
  also have "\<dots> \<longleftrightarrow> real k * step < stop - start"
    using assms by (simp add: pos_less_divide_eq)
  finally show ?thesis by (simp add: arange_values_def algebra_simps)
qed

lemma set_arange_values:
  assumes "step > 0"
  shows "set (arange_values start stop step) =
           {c. \<exists>k::nat. c = start + real k * step \<and> c < stop}"
proof -
  have "set (arange_values start stop step) =
          {arange_values start stop step ! k | k. k < length (arange_values start stop step)}"
    by (simp add: set_conv_nth)
  also have "\<dots> = {c. \<exists>k::nat. c = start + real k * step \<and> c < stop}"
    using arange_values_length_iff [OF assms] arange_values_nth by (auto; metis)
  finally show ?thesis .
qed


lemma compute_points_rect:
  assumes "sx \<noteq> 0" "sy \<noteq> 0"
  shows "compute_points d e ''Rectangular'' sx sy zs rs =
           Inr (rect_points (d / 2) e sx sy zs rs, length (rect_points (d / 2) e sx sy zs rs))"
  using assms by (simp add: compute_points_def arange_def rect_loop_eq rect_points_def Let_def)

lemma compute_points_hex:
  assumes "gt \<noteq> ''Rectangular''" "sx \<noteq> 0" "sy \<noteq> 0"
  shows "compute_points d e gt sx sy zs rs =
           Inr (hex_points (d / 2) e sx sy zs rs, length (hex_points (d / 2) e sx sy zs rs))"
  using assms
  by (simp add: compute_points_def arange_def hex_loop_eq [OF assms(3)] hex_points_def Let_def)

lemma set_rect_points:
  "set (rect_points R e sx sy zs rs) =
     {(x, y). x \<in> set (arange_values (- R + sx / 2) R sx)
            \<and> y \<in> set (arange_values (- R + sy / 2) R sy) \<and> accept_cond R e zs rs x y}"
  by (auto simp: rect_points_def)

lemma set_hex_points:
  "set (hex_points R e sx sy zs rs) =
     {(x, y). \<exists>i < length (arange_values (- R + sx / 2) R sx).
                x = arange_values (- R + sx / 2) R sx ! i
              \<and> y \<in> set (hex_column R sy i) \<and> accept_cond R e zs rs x y}"
  by (auto simp: hex_points_def set_zip; force)

lemma compute_points_returns:
  assumes "sx \<noteq> 0" "sy \<noteq> 0"
  shows "\<exists>pts. compute_points d e gt sx sy zs rs = Inr (pts, length pts)"
  using compute_points_rect [OF assms] compute_points_hex [OF _ assms]
  by (cases "gt = ''Rectangular''") blast+

lemma compute_points_accepts:
  assumes "compute_points d e gt sx sy zs rs = Inr (pts, n)" "(x, y) \<in> set pts"
  shows "accept_cond (d / 2) e zs rs x y"
proof -
  from assms(1) have nz: "sx \<noteq> 0"
    by (auto simp: compute_points_def arange_def Let_def split: if_splits)
  show ?thesis
  proof (cases "gt = ''Rectangular''")
    case True
    with assms(1) nz have "sy \<noteq> 0"
      by (auto simp: compute_points_def arange_def Let_def split: if_splits)
    with assms nz True show ?thesis
      by (auto simp: compute_points_rect set_rect_points)
  next
    case False
    show ?thesis
    proof (cases "sy = 0")
      case True
      with assms False nz have "arange_values (- (d / 2) + sx / 2) (d / 2) sx = []"
        by (cases "arange_values (- (d / 2) + sx / 2) (d / 2) sx")
           (auto simp: compute_points_def arange_def Let_def)
      with assms False nz show ?thesis
        by (auto simp: compute_points_def arange_def Let_def)
    next
      case sy: False
      with assms nz False show ?thesis
        by (auto simp: compute_points_hex set_hex_points)
    qed
  qed
qed


section \<open>Claims\<close>




text \<open>
  Claim C6 (zone saturation). For every valid input whose circular zones contain a zone
  centred at the origin with a radius of at least the wafer radius, \<open>compute_points\<close>
  returns the empty list and the count 0.
\<close>
theorem zone_saturation:
  assumes "0 < wafer_diameter" "0 < spacing_x" "0 < spacing_y" "0 \<le> edge_exclusion"
    and "(0, 0, er) \<in> set exclusion_zones" "wafer_diameter / 2 \<le> er"
  shows "compute_points wafer_diameter edge_exclusion grid_type spacing_x spacing_y
           exclusion_zones drawable_rects = Inr ([], 0)"
proof -
  from assms obtain pts where
    pts: "compute_points wafer_diameter edge_exclusion grid_type spacing_x spacing_y
            exclusion_zones drawable_rects = Inr (pts, length pts)"
    using compute_points_returns [of spacing_x spacing_y] by (metis less_irrefl)
  have "False" if "p \<in> set pts" for p
  proof -
    obtain x y where p: "p = (x, y)" by (cases p)
    from compute_points_accepts [OF pts, of x y] that p
    have acc: "x\<^sup>2 + y\<^sup>2 \<le> (wafer_diameter / 2)\<^sup>2"
      and out: "\<not> is_inside_exclusion x y exclusion_zones"
      by (simp_all add: accept_cond_def Let_def)
    from assms(1,6) have "(wafer_diameter / 2)\<^sup>2 \<le> er\<^sup>2"
      by (intro power_mono) simp_all
    with acc have "(x - 0)\<^sup>2 + (y - 0)\<^sup>2 \<le> er\<^sup>2" by simp
    with assms(5) have "is_inside_exclusion x y exclusion_zones"
      unfolding is_inside_exclusion_def list_ex_iff by force
    with out show False ..
  qed
  then have "pts = []" by (cases pts) auto
  with pts show ?thesis by simp
qed

text \<open>Concrete case 2 of the specification: diameter 10, both spacings 5, no edge
  exclusion, rectangular grid and the single circular zone \<open>(0, 0, 10)\<close> give count 0.\<close>
theorem zone_saturation_witness:
  "(0::real) < 10 \<and> (0::real) < 5 \<and> (0::real) \<le> 0
   \<and> (0, 0, 10) \<in> set [(0, 0, 10 :: real)] \<and> (10::real) / 2 \<le> 10
   \<and> compute_points 10 0 ''Rectangular'' 5 5 [(0, 0, 10)] [] = Inr ([], 0)"
  using zone_saturation [of 10 5 5 0 10 "[(0, 0, 10)]" "''Rectangular''" "[]"]
  by simp

text \<open>
  Claim C7 as stated fails: a zone of width 0 and height 5 with its corner at the origin
  has \<open>rw \<le> 0\<close>, and yet it excludes the point \<open>(0, 2)\<close>, because the comparisons
  are inclusive.
\<close>
theorem degenerate_rect_counterexample:
  "(0::real) \<le> 0 \<and> is_inside_rects 0 2 [(0, 0, 0, 5)]"
  by (simp add: is_inside_rects_def)

text \<open>
  Claim C7, amended. A rectangular zone \<open>(rx, ry, rw, rh)\<close> excludes exactly the points
  with \<open>rx \<le> x \<le> rx + rw\<close> and \<open>ry \<le> y \<le> ry + rh\<close>, inclusive on all four sides;
  hence a zone with a negative width or a negative height excludes no point (a zone of
  width or height exactly 0 still excludes the points of its segment).
\<close>
theorem is_inside_rects_zone:
  "(is_inside_rects x y [(rx, ry, rw, rh)]
      \<longleftrightarrow> rx \<le> x \<and> x \<le> rx + rw \<and> ry \<le> y \<and> y \<le> ry + rh)
   \<and> (rw < 0 \<or> rh < 0 \<longrightarrow> \<not> is_inside_rects x y [(rx, ry, rw, rh)])"
  by (auto simp: is_inside_rects_def)

text \<open>The amended claim at a zone of width \<open>-1\<close>.\<close>
theorem is_inside_rects_zone_witness:
  "(is_inside_rects 0 0 [(0, 0, - 1, 1)]
      \<longleftrightarrow> (0::real) \<le> 0 \<and> (0::real) \<le> 0 + - 1 \<and> (0::real) \<le> 0 \<and> (0::real) \<le> 0 + 1)
   \<and> ((- 1 :: real) < 0 \<or> (1::real) < 0) \<and> \<not> is_inside_rects 0 0 [(0, 0, - 1, 1)]"
  using is_inside_rects_zone [of 0 0 0 0 "- 1" 1] by simp

lemma extract_loop_eq:
  "extract_loop d objs acc =
     acc @ map (rect_of_obj d) (filter (\<lambda>obj. obj_type obj = ''rect'') objs)"
  by (induction objs arbitrary: acc) simp_all

text \<open>
  Claim C9 (rectangular-zone coordinate transform). Every drawn object of type
  \<^verbatim>\<open>rect\<close> with pixel values \<open>left\<close>, \<open>top\<close>, \<open>width\<close>, \<open>height\<close> yields the zone
  with \<open>x = left * diameter / canvasSize - radius\<close>, \<open>w = width * diameter / canvasSize\<close>,
  \<open>h = height * diameter / canvasSize\<close> and
  \<open>y = diameter - top * diameter / canvasSize - h - radius\<close>, in drawing order, where
  \<open>canvasSize\<close> is the constant 400 of the code. In particular the rectangle
  \<open>left = 0, top = 0, width = 100, height = 100\<close> on a wafer of diameter 80 yields
  the zone \<open>(-40, 20, 20, 20)\<close>, which covers \<open>[-40, -20] \<times> [20, 40]\<close>.
\<close>
theorem rect_zone_transform:
  "extract_rects wafer_diameter (Some objs) =
     map (\<lambda>obj. (left obj * wafer_diameter / CANVAS_SIZE - wafer_diameter / 2,
                 wafer_diameter - top obj * wafer_diameter / CANVAS_SIZE
                   - height obj * wafer_diameter / CANVAS_SIZE - wafer_diameter / 2,
                 width obj * wafer_diameter / CANVAS_SIZE,
                 height obj * wafer_diameter / CANVAS_SIZE))
         (filter (\<lambda>obj. obj_type obj = ''rect'') objs)
   \<and> CANVAS_SIZE = 400
   \<and> extract_rects 80
        (Some [\<lparr>obj_type = ''rect'', left = 0, top = 0, width = 100, height = 100\<rparr>])
       = [(- 40, 20, 20, 20)]
   \<and> (is_inside_rects x y (extract_rects 80
        (Some [\<lparr>obj_type = ''rect'', left = 0, top = 0, width = 100, height = 100\<rparr>]))
       \<longleftrightarrow> - 40 \<le> x \<and> x \<le> - 20 \<and> 20 \<le> y \<and> y \<le> 40)"
  by (auto simp: extract_rects_def extract_loop_eq rect_of_obj_def Let_def CANVAS_SIZE_def
        is_inside_rects_def)

text \<open>
  Claim C3 says that an edge exclusion above the wafer radius yields no point. The code
  squares the negative difference \<open>radius - edge_exclusion\<close>, so the test accepts points
  again: with diameter 10 (radius 5), edge exclusion 10 and both spacings 5 the rectangular
  grid returns four points, and no error.
\<close>
theorem edge_exclusion_beyond_radius:
  "compute_points 10 10 ''Rectangular'' 5 5 [] []
     = Inr ([(- 5 / 2, - 5 / 2), (- 5 / 2, 5 / 2), (5 / 2, - 5 / 2), (5 / 2, 5 / 2)], 4)"
  by code_simp

text \<open>
  Claim C4 says that a larger edge exclusion never gives more points. With diameter 10 and
  both spacings 5, the edge exclusion 5 gives no point and the larger edge exclusion 10
  gives four: the same squaring of a negative difference as for claim C3.
\<close>
theorem edge_exclusion_not_monotone:
  "compute_points 10 5 ''Rectangular'' 5 5 [] [] = Inr ([], 0)
   \<and> compute_points 10 10 ''Rectangular'' 5 5 [] []
       = Inr ([(- 5 / 2, - 5 / 2), (- 5 / 2, 5 / 2), (5 / 2, - 5 / 2), (5 / 2, 5 / 2)], 4)"
  by code_simp

lemma subseq_filter_mono:
  "(\<And>x. P x \<Longrightarrow> Q x) \<Longrightarrow> subseq (filter P xs) (filter Q xs)"
  by (induction xs) auto

lemma subseq_concat_map:
  "(\<And>x. x \<in> set xs \<Longrightarrow> subseq (f x) (g x))
   \<Longrightarrow> subseq (concat (map f xs)) (concat (map g xs))"
  by (induction xs) (auto intro: list_emb_append_mono)

lemma is_inside_exclusion_mono:
  "set zs \<subseteq> set zs' \<Longrightarrow> is_inside_exclusion x y zs \<Longrightarrow> is_inside_exclusion x y zs'"
  unfolding is_inside_exclusion_def list_ex_iff by blast

lemma is_inside_rects_mono:
  "set rs \<subseteq> set rs' \<Longrightarrow> is_inside_rects x y rs \<Longrightarrow> is_inside_rects x y rs'"
  unfolding is_inside_rects_def list_ex_iff by blast

lemma accept_cond_antimono:
  "set zs \<subseteq> set zs' \<Longrightarrow> set rs \<subseteq> set rs' \<Longrightarrow> accept_cond R e zs' rs' x y
   \<Longrightarrow> accept_cond R e zs rs x y"
  unfolding accept_cond_def Let_def
  using is_inside_exclusion_mono is_inside_rects_mono by blast

lemma rect_points_subseq:
  assumes "set zs \<subseteq> set zs'" "set rs \<subseteq> set rs'"
  shows "subseq (rect_points R e sx sy zs' rs') (rect_points R e sx sy zs rs)"
  unfolding rect_points_def
  by (intro subseq_concat_map subseq_map subseq_filter_mono)
     (rule accept_cond_antimono [OF assms])

lemma hex_points_subseq:
  assumes "set zs \<subseteq> set zs'" "set rs \<subseteq> set rs'"
  shows "subseq (hex_points R e sx sy zs' rs') (hex_points R e sx sy zs rs)"
proof -
  have "subseq
          (case p of (j, x) \<Rightarrow>
             map (Pair x) (filter (accept_cond R e zs' rs' x) (hex_column R sy j)))
          (case p of (j, x) \<Rightarrow>
             map (Pair x) (filter (accept_cond R e zs rs x) (hex_column R sy j)))"
    for p :: "nat \<times> real"
    by (cases p) (auto intro!: subseq_map subseq_filter_mono accept_cond_antimono [OF assms])
  then show ?thesis
    unfolding hex_points_def by (intro subseq_concat_map)
qed

lemma compute_points_subseq:
  assumes "sx \<noteq> 0" "sy \<noteq> 0" "set zs \<subseteq> set zs'" "set rs \<subseteq> set rs'"
  shows "\<exists>pts pts'. compute_points d e gt sx sy zs rs = Inr (pts, length pts)
           \<and> compute_points d e gt sx sy zs' rs' = Inr (pts', length pts')
           \<and> subseq pts' pts"
proof (cases "gt = ''Rectangular''")
  case True
  then show ?thesis
    using compute_points_rect [OF assms(1,2)] rect_points_subseq [OF assms(3,4)] by auto
next
  case False
  then show ?thesis
    using compute_points_hex [OF False assms(1,2)] hex_points_subseq [OF assms(3,4)] by auto
qed

text \<open>
  Claim C10 (zone monotonicity). For every valid input and every further exclusion zone,
  circular (\<open>z\<close>) or rectangular (\<open>r\<close>), inserted anywhere into its list, the points
  returned with the zone are a subsequence of the points returned without it, and their
  count is not larger: a further zone neither adds nor reorders points.
\<close>

theorem zone_monotone:
  assumes "0 < wafer_diameter" "0 < spacing_x" "0 < spacing_y" "0 \<le> edge_exclusion"
  shows "\<exists>pts ptsc ptsr.
           compute_points wafer_diameter edge_exclusion grid_type spacing_x spacing_y
             (zs1 @ zs2) (rs1 @ rs2) = Inr (pts, length pts)
         \<and> compute_points wafer_diameter edge_exclusion grid_type spacing_x spacing_y
             (zs1 @ z # zs2) (rs1 @ rs2) = Inr (ptsc, length ptsc)
         \<and> subseq ptsc pts \<and> length ptsc \<le> length pts
         \<and> compute_points wafer_diameter edge_exclusion grid_type spacing_x spacing_y
             (zs1 @ zs2) (rs1 @ r # rs2) = Inr (ptsr, length ptsr)
         \<and> subseq ptsr pts \<and> length ptsr \<le> length pts"
proof -
  from assms have nz: "spacing_x \<noteq> 0" "spacing_y \<noteq> 0" by simp_all
  have c: "set (zs1 @ zs2) \<subseteq> set (zs1 @ z # zs2)" "set (rs1 @ rs2) \<subseteq> set (rs1 @ rs2)"
    and r: "set (zs1 @ zs2) \<subseteq> set (zs1 @ zs2)" "set (rs1 @ rs2) \<subseteq> set (rs1 @ r # rs2)"
    by auto
  from compute_points_subseq [OF nz c, of wafer_diameter edge_exclusion grid_type]
       compute_points_subseq [OF nz r, of wafer_diameter edge_exclusion grid_type]
  show ?thesis
    by (auto dest: subseq_same_length list_emb_length)
qed

text \<open>Zone monotonicity at a wafer of diameter 10 without zones, extended by the circular
  zone \<open>(2, 2, 1)\<close> and by the rectangular zone \<open>(0, 0, 3, 3)\<close>.\<close>

theorem zone_monotone_witness:
  "(0::real) < 10 \<and> (0::real) < 5 \<and> (0::real) \<le> 0
   \<and> (\<exists>pts ptsc ptsr.
           compute_points 10 0 ''Rectangular'' 5 5 ([] @ []) ([] @ []) = Inr (pts, length pts)
         \<and> compute_points 10 0 ''Rectangular'' 5 5 ([] @ (2, 2, 1) # []) ([] @ [])
             = Inr (ptsc, length ptsc)
         \<and> subseq ptsc pts \<and> length ptsc \<le> length pts
         \<and> compute_points 10 0 ''Rectangular'' 5 5 ([] @ []) ([] @ (0, 0, 3, 3) # [])
             = Inr (ptsr, length ptsr)
         \<and> subseq ptsr pts \<and> length ptsr \<le> length pts)"
  using zone_monotone [of 10 5 5 0 "''Rectangular''" "[]" "[]" "[]" "[]" "(2, 2, 1)" "(0, 0, 3, 3)"]
  by simp






lemma zip_upt_nth:
  "zip [0 ..< length xs] xs = map (\<lambda>i. (i, xs ! i)) [0 ..< length xs]"
  by (rule nth_equalityI) simp_all

lemma hex_points_by_index:
  "hex_points R e sx sy zs rs =
     concat (map (\<lambda>i. map (Pair (arange_values (- R + sx / 2) R sx ! i))
                    (filter (accept_cond R e zs rs (arange_values (- R + sx / 2) R sx ! i))
                       (map (hex_column R sy)
                          [0 ..< length (arange_values (- R + sx / 2) R sx)] ! i)))
                 [0 ..< length (arange_values (- R + sx / 2) R sx)])"
  unfolding hex_points_def zip_upt_nth
  by (rule arg_cong [where f = concat]) (simp add: comp_def)

lemma hex_column_length_iff:
  assumes "0 < sy"
  shows "k < length (hex_column R sy i)
           \<longleftrightarrow> - R + sy / 2 + (if i mod 2 = 0 then 0 else sy / 2) + real k * sy < R"
  unfolding hex_column_def by (rule arange_values_length_iff [OF assms])

lemma hex_column_nth:
  "k < length (hex_column R sy i) \<Longrightarrow>
   hex_column R sy i ! k = - R + sy / 2 + (if i mod 2 = 0 then 0 else sy / 2) + real k * sy"
  unfolding hex_column_def by (rule arange_values_nth)

text \<open>
  Claim C8 (hexagonal column-parity offset). For every valid input whose grid type is not
  \<^verbatim>\<open>Rectangular\<close> (in particular \<^verbatim>\<open>Hexagonal\<close>), the X candidates \<open>xs\<close> are the
  range of the rectangular branch: start \<open>-radius + spacing_x / 2\<close>, step \<open>spacing_x\<close>,
  strictly below \<open>radius\<close>. The Y candidates \<open>yss ! i\<close> of the \<open>i\<close>-th X candidate start
  at \<open>-radius + spacing_y / 2\<close> when \<open>i\<close> is even and at
  \<open>-radius + spacing_y / 2 + spacing_y / 2\<close> when \<open>i\<close> is odd, with step \<open>spacing_y\<close>, and are
  exactly those strictly below \<open>radius\<close>. The result is the accepted points of these
  columns in generation order.
\<close>

theorem hexagonal_columns:
  assumes "grid_type \<noteq> ''Rectangular''"
    and "0 < wafer_diameter" "0 < spacing_x" "0 < spacing_y" "0 \<le> edge_exclusion"
  shows "\<exists>xs yss pts.
           compute_points wafer_diameter edge_exclusion grid_type spacing_x spacing_y
             exclusion_zones drawable_rects = Inr (pts, length pts)
         \<and> arange (- (wafer_diameter / 2) + spacing_x / 2) (wafer_diameter / 2) spacing_x
             = Inr xs
         \<and> (\<forall>k. k < length xs \<longleftrightarrow>
                 - (wafer_diameter / 2) + spacing_x / 2 + real k * spacing_x
                   < wafer_diameter / 2)
         \<and> (\<forall>k < length xs.
                 xs ! k = - (wafer_diameter / 2) + spacing_x / 2 + real k * spacing_x)
         \<and> length yss = length xs
         \<and> (\<forall>i < length xs. \<forall>k. k < length (yss ! i) \<longleftrightarrow>
                 - (wafer_diameter / 2) + spacing_y / 2
                   + (if i mod 2 = 0 then 0 else spacing_y / 2) + real k * spacing_y
                   < wafer_diameter / 2)
         \<and> (\<forall>i < length xs. \<forall>k < length (yss ! i).
                 yss ! i ! k = - (wafer_diameter / 2) + spacing_y / 2
                   + (if i mod 2 = 0 then 0 else spacing_y / 2) + real k * spacing_y)
         \<and> pts = concat (map (\<lambda>i. map (Pair (xs ! i))
                     (filter (accept_cond (wafer_diameter / 2) edge_exclusion exclusion_zones
                                drawable_rects (xs ! i)) (yss ! i)))
                   [0 ..< length xs])"
proof -
  let ?R = "wafer_diameter / 2"
  let ?xs = "arange_values (- ?R + spacing_x / 2) ?R spacing_x"
  let ?yss = "map (hex_column ?R spacing_y) [0 ..< length ?xs]"
  let ?pts = "hex_points ?R edge_exclusion spacing_x spacing_y exclusion_zones drawable_rects"
  from assms have nz: "spacing_x \<noteq> 0" "spacing_y \<noteq> 0" by simp_all
  have 1: "compute_points wafer_diameter edge_exclusion grid_type spacing_x spacing_y
             exclusion_zones drawable_rects = Inr (?pts, length ?pts)"
    by (rule compute_points_hex [OF assms(1) nz])
  have 2: "arange (- ?R + spacing_x / 2) ?R spacing_x = Inr ?xs"
    using nz by (simp add: arange_def)
  have 3: "\<forall>k. k < length ?xs \<longleftrightarrow> - ?R + spacing_x / 2 + real k * spacing_x < ?R"
    using arange_values_length_iff [OF assms(3)] by blast
  have 4: "\<forall>k < length ?xs. ?xs ! k = - ?R + spacing_x / 2 + real k * spacing_x"
    using arange_values_nth by blast
  have 5: "length ?yss = length ?xs" by simp
  have 6: "\<forall>i < length ?xs. \<forall>k. k < length (?yss ! i) \<longleftrightarrow>
             - ?R + spacing_y / 2 + (if i mod 2 = 0 then 0 else spacing_y / 2)
               + real k * spacing_y < ?R"
  proof (intro allI impI)
    fix i k assume "i < length ?xs"
    then have "?yss ! i = hex_column ?R spacing_y i" by simp
    then show "k < length (?yss ! i) \<longleftrightarrow>
             - ?R + spacing_y / 2 + (if i mod 2 = 0 then 0 else spacing_y / 2)
               + real k * spacing_y < ?R"
      by (simp only: hex_column_length_iff [OF assms(4)])
  qed
  have 7: "\<forall>i < length ?xs. \<forall>k < length (?yss ! i).
             ?yss ! i ! k = - ?R + spacing_y / 2 + (if i mod 2 = 0 then 0 else spacing_y / 2)
               + real k * spacing_y"
  proof (intro allI impI)
    fix i k assume "i < length ?xs"
    then have "?yss ! i = hex_column ?R spacing_y i" by simp
    moreover assume "k < length (?yss ! i)"
    ultimately show "?yss ! i ! k = - ?R + spacing_y / 2
               + (if i mod 2 = 0 then 0 else spacing_y / 2) + real k * spacing_y"
      by (simp only: hex_column_nth)
  qed
  have 8: "?pts = concat (map (\<lambda>i. map (Pair (?xs ! i))
                     (filter (accept_cond ?R edge_exclusion exclusion_zones drawable_rects
                                (?xs ! i)) (?yss ! i)))
                   [0 ..< length ?xs])"
    by (rule hex_points_by_index)
  from 1 2 3 4 5 6 7 8 show ?thesis by blast
qed

text \<open>The hexagonal columns at diameter 10 and both spacings 5.\<close>

theorem hexagonal_columns_witness:
  "''Hexagonal'' \<noteq> ''Rectangular'' \<and> (0::real) < 10 \<and> (0::real) < 5 \<and> (0::real) \<le> 0
   \<and> (\<exists>xs yss pts.
           compute_points 10 0 ''Hexagonal'' 5 5 [] [] = Inr (pts, length pts)
         \<and> arange (- (10 / 2) + 5 / 2) (10 / 2) 5 = Inr xs
         \<and> (\<forall>k. k < length xs \<longleftrightarrow> - (10 / 2) + 5 / 2 + real k * 5 < (10::real) / 2)
         \<and> (\<forall>k < length xs. xs ! k = - (10 / 2) + 5 / 2 + real k * 5)
         \<and> length yss = length xs
         \<and> (\<forall>i < length xs. \<forall>k. k < length (yss ! i) \<longleftrightarrow>
                 - (10 / 2) + 5 / 2 + (if i mod 2 = 0 then 0 else 5 / 2) + real k * 5
                   < (10::real) / 2)
         \<and> (\<forall>i < length xs. \<forall>k < length (yss ! i).
                 yss ! i ! k = - (10 / 2) + 5 / 2 + (if i mod 2 = 0 then 0 else 5 / 2)
                   + real k * 5)
         \<and> pts = concat (map (\<lambda>i. map (Pair (xs ! i))
                     (filter (accept_cond (10 / 2) 0 [] [] (xs ! i)) (yss ! i)))
                   [0 ..< length xs]))"
proof -
  have h: "''Hexagonal'' \<noteq> ''Rectangular''" "(0::real) < 10" "(0::real) < 5" "(0::real) \<le> 0"
    by simp_all
  from hexagonal_columns [OF h(1) h(2) h(3) h(3) h(4), of "[]" "[]"] h
  show ?thesis by blast
qed

text \<open>
  Claim C2 as stated fails for a hexagonal grid: with diameter 10 and both spacings 5 the
  point \<open>(2.5, -2.5)\<close> is a point of the lattice of the claim (X index 1, Y index 0, both
  coordinates below the radius) and passes all four acceptance tests, but the hexagonal
  branch shifts the odd column and returns \<open>(2.5, 0)\<close> instead.
\<close>

theorem completeness_counterexample:
  "compute_points 10 0 ''Hexagonal'' 5 5 [] []
     = Inr ([(- 5 / 2, - 5 / 2), (- 5 / 2, 5 / 2), (5 / 2, 0)], 3)
   \<and> (5 / 2 :: real) = - (10 / 2) + 5 / 2 + real 1 * 5
   \<and> (- 5 / 2 :: real) = - (10 / 2) + 5 / 2 + real 0 * 5
   \<and> (5 / 2 :: real) < 10 / 2 \<and> (- 5 / 2 :: real) < 10 / 2
   \<and> (5 / 2)\<^sup>2 + (- 5 / 2)\<^sup>2 \<le> ((10::real) / 2)\<^sup>2
   \<and> (5 / 2)\<^sup>2 + (- 5 / 2)\<^sup>2 \<le> ((10::real) / 2 - 0)\<^sup>2
   \<and> \<not> is_inside_exclusion (5 / 2) (- 5 / 2) []
   \<and> \<not> is_inside_rects (5 / 2) (- 5 / 2) []
   \<and> ((5 / 2, - 5 / 2) :: point) \<notin> set [(- 5 / 2, - 5 / 2), (- 5 / 2, 5 / 2), (5 / 2, 0)]"
  by code_simp

text \<open>
  Claim C2, amended (completeness). For every valid Rectangular-grid input, every candidate
  of the lattice with start \<open>-radius + spacing / 2\<close>, step \<open>spacing\<close>, strictly below
  \<open>radius\<close> on both axes that passes all four acceptance tests is in the result. For any
  other grid type the same holds for the lattice whose Y start is raised by
  \<open>spacing_y / 2\<close> on the odd X columns.
\<close>

theorem compute_points_complete:
  assumes "0 < wafer_diameter" "0 < spacing_x" "0 < spacing_y" "0 \<le> edge_exclusion"
  shows "\<exists>pts. compute_points wafer_diameter edge_exclusion grid_type spacing_x spacing_y
                 exclusion_zones drawable_rects = Inr (pts, length pts)
           \<and> (\<forall>(i::nat) (j::nat) x y.
                  x = - (wafer_diameter / 2) + spacing_x / 2 + real i * spacing_x
                \<and> y = - (wafer_diameter / 2) + spacing_y / 2
                      + (if grid_type = ''Rectangular'' \<or> i mod 2 = 0 then 0 else spacing_y / 2)
                      + real j * spacing_y
                \<and> x < wafer_diameter / 2 \<and> y < wafer_diameter / 2
                \<and> x\<^sup>2 + y\<^sup>2 \<le> (wafer_diameter / 2)\<^sup>2
                \<and> x\<^sup>2 + y\<^sup>2 \<le> (wafer_diameter / 2 - edge_exclusion)\<^sup>2
                \<and> \<not> is_inside_exclusion x y exclusion_zones
                \<and> \<not> is_inside_rects x y drawable_rects
                \<longrightarrow> (x, y) \<in> set pts)"
proof -
  let ?R = "wafer_diameter / 2"
  let ?xs = "arange_values (- ?R + spacing_x / 2) ?R spacing_x"
  from assms have nz: "spacing_x \<noteq> 0" "spacing_y \<noteq> 0" by simp_all
  have acc: "accept_cond ?R edge_exclusion exclusion_zones drawable_rects x y"
    if "x\<^sup>2 + y\<^sup>2 \<le> ?R\<^sup>2" "x\<^sup>2 + y\<^sup>2 \<le> (?R - edge_exclusion)\<^sup>2"
       "\<not> is_inside_exclusion x y exclusion_zones" "\<not> is_inside_rects x y drawable_rects"
    for x y
    using that by (simp add: accept_cond_def Let_def)
  show ?thesis
  proof (cases "grid_type = ''Rectangular''")
    case True
    let ?pts = "rect_points ?R edge_exclusion spacing_x spacing_y exclusion_zones drawable_rects"
    have "(x, y) \<in> set ?pts"
      if "x = - ?R + spacing_x / 2 + real i * spacing_x"
         "y = - ?R + spacing_y / 2 + 0 + real j * spacing_y"
         "x < ?R" "y < ?R"
         "accept_cond ?R edge_exclusion exclusion_zones drawable_rects x y"
      for i j :: nat and x y
    proof -
      from that(1,3) have "x \<in> set ?xs"
        unfolding set_arange_values [OF assms(2)] by blast
      moreover from that(2,4) have "y \<in> set (arange_values (- ?R + spacing_y / 2) ?R spacing_y)"
        unfolding set_arange_values [OF assms(3)] by auto
      ultimately show ?thesis
        using that(5) unfolding set_rect_points by simp
    qed
    with acc True compute_points_rect [OF nz, of wafer_diameter edge_exclusion
        exclusion_zones drawable_rects]
    show ?thesis by (intro exI [of _ ?pts]) (simp only: simp_thms if_True, blast)
  next
    case False
    let ?pts = "hex_points ?R edge_exclusion spacing_x spacing_y exclusion_zones drawable_rects"
    have "(x, y) \<in> set ?pts"
      if "x = - ?R + spacing_x / 2 + real i * spacing_x"
         "y = - ?R + spacing_y / 2 + (if i mod 2 = 0 then 0 else spacing_y / 2)
                + real j * spacing_y"
         "x < ?R" "y < ?R"
         "accept_cond ?R edge_exclusion exclusion_zones drawable_rects x y"
      for i j :: nat and x y
    proof -
      from that(1,3) have i: "i < length ?xs"
        by (simp only: arange_values_length_iff [OF assms(2)])
      then have "x = ?xs ! i"
        by (simp only: arange_values_nth that(1))
      moreover from that(2,4) have "y \<in> set (hex_column ?R spacing_y i)"
        unfolding hex_column_def set_arange_values [OF assms(3)] by blast
      ultimately show ?thesis
        using that(5) i unfolding set_hex_points by blast
    qed
    with acc False compute_points_hex [OF False nz, of wafer_diameter edge_exclusion
        exclusion_zones drawable_rects]
    show ?thesis by (intro exI [of _ ?pts]) (simp only: simp_thms if_False, blast)
  qed
qed

text \<open>Completeness at a rectangular grid of diameter 10 with one rectangular zone.\<close>

theorem compute_points_complete_witness:
  "(0::real) < 10 \<and> (0::real) < 5 \<and> (0::real) \<le> 0
   \<and> (\<exists>pts. compute_points 10 0 ''Rectangular'' 5 5 [] [(0, 0, 3, 3)] = Inr (pts, length pts)
           \<and> (\<forall>(i::nat) (j::nat) x y.
                  x = - (10 / 2) + 5 / 2 + real i * 5
                \<and> y = - (10 / 2) + 5 / 2
                      + (if ''Rectangular'' = ''Rectangular'' \<or> i mod 2 = 0 then 0 else 5 / 2)
                      + real j * 5
                \<and> x < 10 / 2 \<and> y < 10 / 2
                \<and> x\<^sup>2 + y\<^sup>2 \<le> (10 / 2)\<^sup>2
                \<and> x\<^sup>2 + y\<^sup>2 \<le> (10 / 2 - 0)\<^sup>2
                \<and> \<not> is_inside_exclusion x y []
                \<and> \<not> is_inside_rects x y [(0, 0, 3, 3)]
                \<longrightarrow> (x, y) \<in> set pts))"
proof -
  have h: "(0::real) < 10" "(0::real) < 5" "(0::real) \<le> 0" by simp_all
  from compute_points_complete [OF h(1) h(2) h(2) h(3),
      of "''Rectangular''" "[]" "[(0, 0, 3, 3)]"] h
  show ?thesis by blast
qed

end
